theory Spec2Isabelle
  imports Complex_Main
begin

section \<open>Near-Earth objects: orbit classes and the H-G apparent magnitude\<close>

text \<open>
  The notebooks compute with Python floats. The embedding reads every float as the real
  number it stands for, and the decimal literals of the source (\<open>1.017\<close>, \<open>3.33\<close>, ...)
  are the exact decimal fractions. Overflow and underflow are left out. Rounding is left
  out of the classifier, the phase function and the reduced magnitude; the phase angle of
  \<open>hg_app_mag\<close> is computed with a rounding that is a parameter.
  What Python raises is a value of type \<open>error\<close>, and every function that can raise
  returns \<open>error + real\<close> with the error on the left.
\<close>

subsection \<open>Orbit classifier (02\_NEO\_Classes)\<close>

text \<open>
  \<open>neo_class\<close> is one \<open>if\<close>/\<open>elif\<close> chain; the branches are kept in the order of the
  source. The chained comparison \<open>1.017 < peri_helio_au < 1.3\<close> is the conjunction of its
  two halves, and \<open>&\<close> on two Python booleans is their conjunction.
\<close>

definition neo_class :: "real \<Rightarrow> real \<Rightarrow> real \<Rightarrow> string" where
  "neo_class sem_maj_axis_au peri_helio_au ap_helio_au =
     (if sem_maj_axis_au > 1.0 \<and> (1.017 < peri_helio_au \<and> peri_helio_au < 1.3) then ''Amor''
      else if sem_maj_axis_au > 1.0 \<and> peri_helio_au < 1.017 then ''Apollo''
      else if sem_maj_axis_au < 1.0 \<and> ap_helio_au > 0.983 then ''Aten''
      else if sem_maj_axis_au < 1.0 \<and> ap_helio_au < 0.983 then ''Atira''
      else ''Other'')"

subsection \<open>Photometry (05\_NEO\_Apparent\_Magnitude)\<close>

text \<open>
  \<open>KeyError\<close>, \<open>TypeError\<close> and \<open>ValueError\<close> are Python's exceptions. \<open>Undefined\<close> is
  not one: it marks the places where the reading over the reals has no number to give.
\<close>

datatype error = KeyError | TypeError | ValueError | Undefined

text \<open>
  The two constant tables of \<open>phase_func\<close> are Python dicts with the keys 1 and 2;
  subscripting a dict with a key it does not hold raises \<open>KeyError\<close>.
\<close>

definition a_factor :: "int \<rightharpoonup> real" where
  "a_factor = [1 \<mapsto> 3.33, 2 \<mapsto> 1.87]"

definition b_factor :: "int \<rightharpoonup> real" where
  "b_factor = [1 \<mapsto> 0.63, 2 \<mapsto> 1.22]"

definition subscript :: "(int \<rightharpoonup> real) \<Rightarrow> int \<Rightarrow> error + real" where
  "subscript d k = (case d k of None \<Rightarrow> Inl KeyError | Some v \<Rightarrow> Inr v)"

text \<open>
  \<open>math.tan\<close>: the real tangent has no value where the cosine vanishes (HOL's \<open>tan\<close> is
  \<open>0\<close> there), so the model has no number to return at those points and says so with
  \<open>Undefined\<close>. No double is such a point, so Python itself never raises here.
\<close>

definition math_tan :: "real \<Rightarrow> error + real" where
  "math_tan x = (if cos x = 0 then Inl Undefined else Inr (tan x))"

text \<open>
  \<open>x ** y\<close> on floats, for the exponents used here (positive, not integers): a negative
  base gives a Python \<open>complex\<close>, a base of zero gives \<open>0.0\<close>. The complex result is
  multiplied by two floats, which leaves it complex, and \<open>math.exp\<close> of a complex number
  raises \<open>TypeError\<close>; \<open>exp_of_pow\<close> is that whole step,
  \<open>math.exp(-1.0 * a * (t ** b))\<close>.
\<close>

definition exp_of_pow :: "real \<Rightarrow> real \<Rightarrow> real \<Rightarrow> error + real" where
  "exp_of_pow a t b =
     (if t < 0 then Inl TypeError else Inr (exp (- 1.0 * a * (t powr b))))"

text \<open>
  \<open>phase_func\<close>: Python evaluates the product from the left, so \<open>a_factor[index]\<close> is
  looked up before the tangent is taken and \<open>b_factor[index]\<close> after it.
\<close>

definition phase_func :: "int \<Rightarrow> real \<Rightarrow> error + real" where
  "phase_func index phase_angle =
     (case subscript a_factor index of
        Inl e \<Rightarrow> Inl e
      | Inr a \<Rightarrow>
          (case math_tan (0.5 * phase_angle) of
             Inl e \<Rightarrow> Inl e
           | Inr t \<Rightarrow>
               (case subscript b_factor index of
                  Inl e \<Rightarrow> Inl e
                | Inr b \<Rightarrow> exp_of_pow a t b)))"

text \<open>\<open>math.log10\<close> raises \<open>ValueError\<close> (math domain error) unless its argument is positive.\<close>

definition math_log10 :: "real \<Rightarrow> error + real" where
  "math_log10 x = (if x \<le> 0 then Inl ValueError else Inr (log 10 x))"

text \<open>
  \<open>reduc_mag\<close>: the parameter \<open>slope_g\<close> has the default \<open>0.15\<close>; a call that leaves it
  out is \<open>None\<close> here. The two phase functions are evaluated in the order of the source.
\<close>

definition slope_g_of :: "real option \<Rightarrow> real" where
  "slope_g_of slope_g = (case slope_g of None \<Rightarrow> 0.15 | Some g \<Rightarrow> g)"

definition reduc_mag :: "real \<Rightarrow> real \<Rightarrow> real option \<Rightarrow> error + real" where
  "reduc_mag abs_mag phase_angle slope_g =
     (case phase_func 1 phase_angle of
        Inl e \<Rightarrow> Inl e
      | Inr phi1 \<Rightarrow>
          (case phase_func 2 phase_angle of
             Inl e \<Rightarrow> Inl e
           | Inr phi2 \<Rightarrow>
               (case math_log10 ((1.0 - slope_g_of slope_g) * phi1 + slope_g_of slope_g * phi2) of
                  Inl e \<Rightarrow> Inl e
                | Inr l \<Rightarrow> Inr (abs_mag - 2.5 * l))))"

text \<open>
  Rounding. The phase angle is where rounding decides whether the code raises: the
  quotient under \<open>math.acos\<close> is a rounded quotient of a rounded sum and a rounded product
  of rounded norms, and it can leave \<open>[-1, 1]\<close> although the exact quotient cannot. The
  functions that compute it therefore take the rounding of one arithmetic operation as a
  parameter \<open>rnd\<close>. \<open>exact\<close> rounds nothing. \<open>binary64\<close> is the rounding of Python's and
  numpy's doubles: to the nearest number with a significand of 53 bits, ties to the even
  one; the exponent is not bounded, so overflow and subnormal numbers are left out.
\<close>

definition exact :: "real \<Rightarrow> real" where
  "exact x = x"

definition round_half_even :: "real \<Rightarrow> int" where
  "round_half_even m =
     (let f = \<lfloor>m\<rfloor>
      in if m - of_int f < 1 / 2 then f
         else if 1 / 2 < m - of_int f then f + 1
         else if even f then f else f + 1)"

definition binary64 :: "real \<Rightarrow> real" where
  "binary64 x =
     (if x = 0 then 0
      else (let e = \<lfloor>log 2 \<bar>x\<bar>\<rfloor> - 52
            in of_int (round_half_even (x / 2 powr of_int e)) * 2 powr of_int e))"

text \<open>
  \<open>np.linalg.norm\<close> of a list is the square root of the sum of the squares; the dot product
  is summed by \<open>sum\<close> over \<open>zip\<close>, which stops at the shorter list and adds from the left,
  starting at 0. Every product, sum and root is rounded. (numpy may add the squares in
  another order; on the lists evaluated below every partial sum is exact.)
\<close>

definition linalg_norm :: "(real \<Rightarrow> real) \<Rightarrow> real list \<Rightarrow> real" where
  "linalg_norm rnd v = rnd (sqrt (foldl (\<lambda>acc x. rnd (acc + rnd (x * x))) 0 v))"

definition dotp :: "(real \<Rightarrow> real) \<Rightarrow> real list \<Rightarrow> real list \<Rightarrow> real" where
  "dotp rnd v1 v2 =
     foldl (\<lambda>acc (v1_i, v2_i). rnd (acc + rnd (v1_i * v2_i))) 0 (zip v1 v2)"

text \<open>\<open>math.acos\<close> raises \<open>ValueError\<close> outside \<open>[-1, 1]\<close>.\<close>

definition math_acos :: "real \<Rightarrow> error + real" where
  "math_acos x = (if x < - 1 \<or> 1 < x then Inl ValueError else Inr (arccos x))"

text \<open>
  The phase angle of \<open>hg_app_mag\<close>. The product of the norms is a numpy scalar, and
  dividing by a numpy zero raises nothing: it gives \<open>nan\<close> for \<open>0 / 0\<close> and an infinity
  otherwise (with a warning). \<open>math.acos\<close> raises \<open>ValueError\<close> on an infinity and passes
  \<open>nan\<close> on. \<open>nan\<close> is not a real number, so the phase angle is an \<open>option\<close>: \<open>None\<close> is
  \<open>nan\<close>.
\<close>

definition obj_phase_angle ::
  "(real \<Rightarrow> real) \<Rightarrow> real list \<Rightarrow> real list \<Rightarrow> error + real option" where
  "obj_phase_angle rnd vec_obj2obs vec_obj2ill =
     (let vec_obj2obs_norm = linalg_norm rnd vec_obj2obs;
          vec_obj2ill_norm = linalg_norm rnd vec_obj2ill;
          dotp_res = dotp rnd vec_obj2obs vec_obj2ill;
          norms = rnd (vec_obj2obs_norm * vec_obj2ill_norm)
      in if norms = 0
         then (if dotp_res = 0 then Inr None else Inl ValueError)
         else (case math_acos (rnd (dotp_res / norms)) of
                 Inl e \<Rightarrow> Inl e
               | Inr x \<Rightarrow> Inr (Some x)))"

text \<open>
  \<open>hg_app_mag\<close>. With a phase angle of \<open>nan\<close>, \<open>reduc_mag\<close> raises nothing: the tangent,
  the power, the exponential and the logarithm of \<open>nan\<close> are \<open>nan\<close>. The norms' product is
  zero on that path, and the last \<open>math.log10\<close> raises \<open>ValueError\<close> there; a sum with
  \<open>nan\<close> would be \<open>nan\<close>, which is no real number.
\<close>

definition hg_app_mag ::
  "(real \<Rightarrow> real) \<Rightarrow> real \<Rightarrow> real list \<Rightarrow> real list \<Rightarrow> real option \<Rightarrow> error + real" where
  "hg_app_mag rnd abs_mag vec_obj2obs vec_obj2ill slope_g =
     (let vec_obj2obs_norm = linalg_norm rnd vec_obj2obs;
          vec_obj2ill_norm = linalg_norm rnd vec_obj2ill;
          norms = rnd (vec_obj2obs_norm * vec_obj2ill_norm)
      in case obj_phase_angle rnd vec_obj2obs vec_obj2ill of
           Inl e \<Rightarrow> Inl e
         | Inr None \<Rightarrow>
             (case math_log10 norms of
                Inl e \<Rightarrow> Inl e
              | Inr l \<Rightarrow> Inl Undefined)
         | Inr (Some angle) \<Rightarrow>
             (case reduc_mag abs_mag angle (Some (slope_g_of slope_g)) of
                Inl e \<Rightarrow> Inl e
              | Inr red_mag \<Rightarrow>
                  (case math_log10 norms of
                     Inl e \<Rightarrow> Inl e
                   | Inr l \<Rightarrow> Inr (red_mag + 5.0 * l))))"

subsection \<open>A device of the numeric proofs\<close>

text \<open>
  The Taylor polynomial of the exponential in Horner form,
  \<open>exp_horner n k x = 1 + x/(k+1) * (1 + x/(k+2) * (\<dots>))\<close> with \<open>n\<close> factors. It is not part
  of the program: the section on the doctest values uses it to enclose \<open>exp\<close> between
  rational numbers.
\<close>

primrec exp_horner :: "nat \<Rightarrow> nat \<Rightarrow> real \<Rightarrow> real" where
  "exp_horner 0 k x = 0"
| "exp_horner (Suc n) k x = 1 + x / real (Suc k) * exp_horner n (Suc k) x"

section \<open>The orbit classifier\<close>

text \<open>
  C4. \<open>neo_class\<close> returns \<open>Amor\<close> when \<open>a > 1\<close> and \<open>1.017 < q < 1.3\<close>, \<open>Apollo\<close> when
  \<open>a > 1\<close> and \<open>q < 1.017\<close>, \<open>Aten\<close> when \<open>a < 1\<close> and \<open>Q > 0.983\<close>, \<open>Atira\<close> when \<open>a < 1\<close>
  and \<open>Q < 0.983\<close>, and \<open>Other\<close> in every remaining case; the four asteroids tested in the
  notebook get the classes asserted there.
\<close>

theorem neo_class_cases:
  "(a > 1 \<and> 1.017 < q \<and> q < 1.3 \<longrightarrow> neo_class a q Q = ''Amor'') \<and>
   (a > 1 \<and> q < 1.017 \<longrightarrow> neo_class a q Q = ''Apollo'') \<and>
   (a < 1 \<and> Q > 0.983 \<longrightarrow> neo_class a q Q = ''Aten'') \<and>
   (a < 1 \<and> Q < 0.983 \<longrightarrow> neo_class a q Q = ''Atira'') \<and>
   (\<not> (a > 1 \<and> 1.017 < q \<and> q < 1.3) \<and> \<not> (a > 1 \<and> q < 1.017) \<and>
    \<not> (a < 1 \<and> Q > 0.983) \<and> \<not> (a < 1 \<and> Q < 0.983) \<longrightarrow> neo_class a q Q = ''Other'') \<and>
   neo_class 1.9191 1.0832 2.7550 = ''Amor'' \<and>
   neo_class 1.4702 0.64699 2.2935 = ''Apollo'' \<and>
   neo_class 0.9668 0.7901 1.1434 = ''Aten'' \<and>
   neo_class 0.7411 0.5024 0.9798 = ''Atira''"
  by (simp add: neo_class_def)

theorem neo_class_cases_witness:
  "neo_class 2 1.1 3 = ''Amor'' \<and> neo_class 2 0.5 3.5 = ''Apollo'' \<and>
   neo_class 0.9 0.7 1.1 = ''Aten'' \<and> neo_class 0.7 0.5 0.9 = ''Atira'' \<and>
   neo_class 2 1.5 2.5 = ''Other''"
  using neo_class_cases [where a = 2 and q = "1.1" and Q = 3]
    neo_class_cases [where a = 2 and q = "0.5" and Q = "3.5"]
    neo_class_cases [where a = "0.9" and q = "0.7" and Q = "1.1"]
    neo_class_cases [where a = "0.7" and q = "0.5" and Q = "0.9"]
    neo_class_cases [where a = 2 and q = "1.5" and Q = "2.5"]
  by simp

text \<open>
  C5. An input exactly on a threshold is classified \<open>Other\<close>: a semi-major axis of 1 (any
  perihelion and aphelion), a perihelion of 1.017 or of 1.3 with a semi-major axis above 1,
  an aphelion of 0.983 with a semi-major axis below 1.
\<close>

theorem neo_class_threshold_other:
  "neo_class 1.0 q Q = ''Other'' \<and>
   (a > 1 \<longrightarrow> neo_class a 1.017 Q = ''Other'') \<and>
   (a > 1 \<longrightarrow> neo_class a 1.3 Q = ''Other'') \<and>
   (a < 1 \<longrightarrow> neo_class a q 0.983 = ''Other'')"
  by (simp add: neo_class_def)

theorem neo_class_threshold_other_witness:
  "neo_class 1.0 0.5 1.5 = ''Other'' \<and> neo_class 2 1.017 3 = ''Other'' \<and>
   neo_class 2 1.3 3 = ''Other'' \<and> neo_class 0.9 0.8 0.983 = ''Other''"
  using neo_class_threshold_other [where a = 2 and q = "0.5" and Q = "1.5"]
    neo_class_threshold_other [where a = 2 and q = "0.5" and Q = 3]
    neo_class_threshold_other [where a = "0.9" and q = "0.8" and Q = 3]
  by simp

section \<open>The phase function\<close>

lemma subscript_a_factor:
  "subscript a_factor 1 = Inr 3.33" "subscript a_factor 2 = Inr 1.87"
  "index \<noteq> 1 \<Longrightarrow> index \<noteq> 2 \<Longrightarrow> subscript a_factor index = Inl KeyError"
  by (simp_all add: subscript_def a_factor_def)

lemma subscript_b_factor:
  "subscript b_factor 1 = Inr 0.63" "subscript b_factor 2 = Inr 1.22"
  by (simp_all add: subscript_def b_factor_def)

lemma cos_half_pos: "0 \<le> \<theta> \<Longrightarrow> \<theta> < pi \<Longrightarrow> 0 < cos (\<theta> / 2)"
  by (rule cos_gt_zero_pi) simp_all

lemma tan_half_nonneg: "0 \<le> \<theta> \<Longrightarrow> \<theta> < pi \<Longrightarrow> 0 \<le> tan (\<theta> / 2)"
  by (rule tan_pos_pi2_le) simp_all

lemma phase_func_1_in_range:
  assumes "0 \<le> \<theta>" "\<theta> < pi"
  shows "phase_func 1 \<theta> = Inr (exp (- 3.33 * tan (\<theta> / 2) powr 0.63))"
  using cos_half_pos [OF assms] tan_half_nonneg [OF assms]
  by (simp add: phase_func_def subscript_a_factor subscript_b_factor math_tan_def exp_of_pow_def)

lemma phase_func_2_in_range:
  assumes "0 \<le> \<theta>" "\<theta> < pi"
  shows "phase_func 2 \<theta> = Inr (exp (- 1.87 * tan (\<theta> / 2) powr 1.22))"
  using cos_half_pos [OF assms] tan_half_nonneg [OF assms]
  by (simp add: phase_func_def subscript_a_factor subscript_b_factor math_tan_def exp_of_pow_def)

text \<open>
  C3. For a phase angle \<open>\<theta>\<close> in \<open>[0, \<pi>)\<close> the phase function of index \<open>i\<close> is
  \<open>exp (- A\<^sub>i * tan (\<theta> / 2) ^ B\<^sub>i)\<close>, with \<open>(A\<^sub>1, B\<^sub>1) = (3.33, 0.63)\<close> and
  \<open>(A\<^sub>2, B\<^sub>2) = (1.87, 1.22)\<close>.
\<close>

theorem phase_func_formula:
  assumes "0 \<le> \<theta>" "\<theta> < pi"
  shows "phase_func 1 \<theta> = Inr (exp (- 3.33 * tan (\<theta> / 2) powr 0.63)) \<and>
         phase_func 2 \<theta> = Inr (exp (- 1.87 * tan (\<theta> / 2) powr 1.22))"
  using phase_func_1_in_range [OF assms] phase_func_2_in_range [OF assms] by simp

theorem phase_func_formula_witness:
  "phase_func 1 (pi / 2) = Inr (exp (- 3.33)) \<and> phase_func 2 (pi / 2) = Inr (exp (- 1.87))"
  using phase_func_formula [of "pi / 2"] by (simp add: tan_45)

text \<open>
  C10. For an index other than 1 and 2 the lookup in the constant table fails:
  \<open>phase_func\<close> raises \<open>KeyError\<close>, whatever the phase angle.
\<close>

theorem phase_func_key_error:
  "index \<noteq> 1 \<Longrightarrow> index \<noteq> 2 \<Longrightarrow> phase_func index phase_angle = Inl KeyError"
  by (simp add: phase_func_def subscript_a_factor)

theorem phase_func_key_error_witness:
  "phase_func 3 0 = Inl KeyError \<and> phase_func 0 (pi / 4) = Inl KeyError \<and>
   phase_func (- 1) 7 = Inl KeyError"
  using phase_func_key_error [of 3 0] phase_func_key_error [of 0 "pi / 4"]
    phase_func_key_error [of "- 1" 7]
  by simp

lemma phase_func_zero: "phase_func 1 0 = Inr 1" "phase_func 2 0 = Inr 1"
  using phase_func_1_in_range [of 0] phase_func_2_in_range [of 0] by simp_all

section \<open>The reduced magnitude\<close>

text \<open>
  C2. For a phase angle \<open>\<theta>\<close> in \<open>[0, \<pi>)\<close> both phase functions return, and when
  \<open>(1 - g) * phase_func 1 \<theta> + g * phase_func 2 \<theta>\<close> is positive, \<open>reduc_mag H \<theta> g\<close> is
  \<open>H - 2.5 * log\<^sub>1\<^sub>0\<close> of it. A call without the slope parameter is the call with \<open>0.15\<close>.
\<close>

theorem reduc_mag_formula:
  assumes "0 \<le> \<theta>" "\<theta> < pi"
  shows "\<exists>phi1 phi2. phase_func 1 \<theta> = Inr phi1 \<and> phase_func 2 \<theta> = Inr phi2 \<and>
           (0 < (1 - g) * phi1 + g * phi2 \<longrightarrow>
              reduc_mag H \<theta> (Some g) = Inr (H - 2.5 * log 10 ((1 - g) * phi1 + g * phi2))) \<and>
           reduc_mag H \<theta> None = reduc_mag H \<theta> (Some 0.15)"
  using phase_func_1_in_range [OF assms] phase_func_2_in_range [OF assms]
  by (simp add: reduc_mag_def slope_g_of_def math_log10_def)

theorem reduc_mag_formula_witness:
  "reduc_mag 10 0 (Some 0.15) = Inr 10 \<and> reduc_mag 10 0 None = Inr 10"
proof -
  obtain phi1 phi2 where p: "phase_func 1 0 = Inr phi1" "phase_func 2 0 = Inr phi2"
    and r: "0 < (1 - 0.15) * phi1 + 0.15 * phi2 \<longrightarrow>
              reduc_mag 10 0 (Some 0.15) = Inr (10 - 2.5 * log 10 ((1 - 0.15) * phi1 + 0.15 * phi2))"
    and d: "reduc_mag 10 0 None = reduc_mag 10 0 (Some 0.15)"
    using reduc_mag_formula [of 0 "0.15" 10] by auto
  from p have "phi1 = 1" "phi2 = 1" by (simp_all add: phase_func_zero)
  with r d show ?thesis by simp
qed

section \<open>The apparent magnitude\<close>

subsection \<open>Exact arithmetic\<close>

text \<open>
  Without rounding the norm is the Euclidean norm and the dot product the sum of the
  products. A list has norm zero exactly when all its entries are zero, and by the
  Cauchy-Schwarz inequality the quotient under the arc cosine lies in \<open>[-1, 1]\<close>: in exact
  arithmetic \<open>math.acos\<close> always returns for nonzero vectors, and the phase angle of two
  parallel vectors is 0.
\<close>

lemma foldl_add: "foldl (\<lambda>acc x. acc + f x) a xs = a + sum_list (map f xs)"
  for a :: real
  by (induction xs arbitrary: a) simp_all

lemma linalg_norm_exact: "linalg_norm exact v = sqrt (sum_list (map (\<lambda>x. x * x) v))"
  by (simp add: linalg_norm_def exact_def foldl_add)

lemma dotp_exact: "dotp exact v1 v2 = sum_list (map (\<lambda>(a, b). a * b) (zip v1 v2))"
proof -
  have "(\<lambda>acc (a, b). exact (acc + exact (a * b))) = (\<lambda>acc x. acc + (case x of (a, b) \<Rightarrow> a * b))"
    by (auto simp add: exact_def fun_eq_iff)
  then show ?thesis by (simp add: dotp_def foldl_add)
qed

lemma sum_squares_nonneg: "0 \<le> sum_list (map (\<lambda>x. x * x) (v::real list))"
  by (induction v) auto

lemma cross_term_le:
  fixes a b A B C :: real
  assumes A: "0 \<le> A" and C: "0 \<le> C" and B: "B * B \<le> A * C"
  shows "2 * a * b * B \<le> A * (b * b) + (a * a) * C"
proof (rule power2_le_imp_le)
  have "(2 * a * b * B)\<^sup>2 = 4 * ((a * a) * (b * b)) * (B * B)"
    by (simp add: power2_eq_square)
  also have "\<dots> \<le> 4 * ((a * a) * (b * b)) * (A * C)"
    by (rule mult_left_mono [OF B]) simp
  also have "\<dots> \<le> (A * (b * b) + (a * a) * C)\<^sup>2"
  proof -
    have "0 \<le> (A * (b * b) - (a * a) * C)\<^sup>2" by simp
    then show ?thesis by (simp add: power2_eq_square algebra_simps)
  qed
  finally show "(2 * a * b * B)\<^sup>2 \<le> (A * (b * b) + (a * a) * C)\<^sup>2" .
  show "0 \<le> A * (b * b) + (a * a) * C" using A C by simp
qed

lemma dotp_square_step:
  fixes a b A B C :: real
  assumes "0 \<le> A" "0 \<le> C" "B * B \<le> A * C"
  shows "(B + a * b) * (B + a * b) \<le> (a * a + A) * (b * b + C)"
  using cross_term_le [OF assms, of a b] assms(3) by (simp add: algebra_simps)

lemma dotp_square_le:
  "dotp exact xs ys * dotp exact xs ys
     \<le> sum_list (map (\<lambda>x. x * x) xs) * sum_list (map (\<lambda>x. x * x) ys)"
proof (induction xs ys rule: list_induct2')
  case 1 show ?case by (simp add: dotp_exact)
next
  case (2 x xs) show ?case by (simp add: dotp_exact)
next
  case (3 y ys) show ?case by (simp add: dotp_exact)
next
  case (4 x xs y ys)
  show ?case
    using dotp_square_step [OF sum_squares_nonneg [of xs] sum_squares_nonneg [of ys]
        4 [unfolded dotp_exact], of x y]
    by (simp add: dotp_exact algebra_simps)
qed

lemma dotp_le_norms: "\<bar>dotp exact xs ys\<bar> \<le> linalg_norm exact xs * linalg_norm exact ys"
proof -
  have "\<bar>dotp exact xs ys\<bar> = sqrt (dotp exact xs ys * dotp exact xs ys)" by simp
  also have "\<dots> \<le> sqrt (sum_list (map (\<lambda>x. x * x) xs) * sum_list (map (\<lambda>x. x * x) ys))"
    using dotp_square_le [of xs ys] by (simp only: real_sqrt_le_iff)
  also have "\<dots> = linalg_norm exact xs * linalg_norm exact ys"
    by (simp add: linalg_norm_exact real_sqrt_mult)
  finally show ?thesis .
qed

lemma linalg_norm_exact_nonneg: "0 \<le> linalg_norm exact v"
  by (simp add: linalg_norm_exact sum_squares_nonneg)

lemma linalg_norm_exact_zero_iff: "linalg_norm exact v = 0 \<longleftrightarrow> (\<forall>x\<in>set v. x = 0)"
proof (induction v)
  case Nil show ?case by (simp add: linalg_norm_exact)
next
  case (Cons x v)
  have "x * x + sum_list (map (\<lambda>x. x * x) v) = 0 \<longleftrightarrow> x = 0 \<and> sum_list (map (\<lambda>x. x * x) v) = 0"
    using sum_squares_nonneg [of v] by (simp add: add_nonneg_eq_0_iff)
  with Cons show ?case by (simp add: linalg_norm_exact)
qed

lemma exact_quotient_in_range:
  assumes "linalg_norm exact xs \<noteq> 0" "linalg_norm exact ys \<noteq> 0"
  shows "- 1 \<le> dotp exact xs ys / (linalg_norm exact xs * linalg_norm exact ys)"
    and "dotp exact xs ys / (linalg_norm exact xs * linalg_norm exact ys) \<le> 1"
proof -
  have pos: "0 < linalg_norm exact xs * linalg_norm exact ys"
    using assms linalg_norm_exact_nonneg [of xs] linalg_norm_exact_nonneg [of ys]
    by (simp add: less_le)
  have "\<bar>dotp exact xs ys\<bar> / (linalg_norm exact xs * linalg_norm exact ys) \<le> 1"
    using dotp_le_norms [of xs ys] pos by simp
  then have "\<bar>dotp exact xs ys / (linalg_norm exact xs * linalg_norm exact ys)\<bar> \<le> 1"
    using pos by (simp add: abs_divide)
  then show "- 1 \<le> dotp exact xs ys / (linalg_norm exact xs * linalg_norm exact ys)"
    and "dotp exact xs ys / (linalg_norm exact xs * linalg_norm exact ys) \<le> 1"
    by linarith+
qed

lemma obj_phase_angle_exact:
  assumes "linalg_norm exact v1 \<noteq> 0" "linalg_norm exact v2 \<noteq> 0"
  shows "obj_phase_angle exact v1 v2 =
           Inr (Some (arccos (dotp exact v1 v2 / (linalg_norm exact v1 * linalg_norm exact v2))))"
  using exact_quotient_in_range [OF assms] assms
  by (simp add: obj_phase_angle_def math_acos_def Let_def exact_def [of "_ * _"]
      exact_def [of "_ / _"])

lemma phase_angle_zero_exact:
  assumes "linalg_norm exact v1 \<noteq> 0" "linalg_norm exact v2 \<noteq> 0"
    and "dotp exact v1 v2 = linalg_norm exact v1 * linalg_norm exact v2"
  shows "obj_phase_angle exact v1 v2 = Inr (Some 0)"
  using assms by (simp add: obj_phase_angle_exact)

subsection \<open>The rounding of doubles\<close>

text \<open>
  \<open>binary64\<close> returns the number with 53 significant bits that lies within half a unit in
  the last place of its argument. The values below are the doubles of \<open>sqrt 3\<close>, of its
  square and of 3 divided by that square: \<open>1.7320508075688772\<close>, \<open>2.9999999999999996\<close>
  and \<open>1.0000000000000002\<close>.
\<close>

lemma round_half_even_nearest:
  assumes "of_int m - 1 / 2 < x" "x < of_int m + 1 / 2"
  shows "round_half_even x = m"
proof (cases "x < of_int m")
  case True
  have "\<lfloor>x\<rfloor> = m - 1" using assms(1) True by (intro floor_unique) simp_all
  then show ?thesis using assms(1) by (simp add: round_half_even_def)
next
  case False
  have "\<lfloor>x\<rfloor> = m" using assms(2) False by (intro floor_unique) simp_all
  then show ?thesis using assms(2) by (simp add: round_half_even_def)
qed

lemma floor_log2:
  fixes x :: real
  assumes "2 ^ k \<le> x" "x < 2 ^ Suc k"
  shows "\<lfloor>log 2 x\<rfloor> = int k"
proof (rule floor_unique)
  have "(0 :: real) < 2 ^ k" by simp
  then have pos: "0 < x" using assms(1) by linarith
  have "2 powr real k \<le> x" using assms(1) by (simp add: powr_realpow)
  then show "of_int (int k) \<le> log 2 x" using pos by (simp add: le_log_iff)
  have "x < 2 powr (real k + 1)" using assms(2) by (simp add: powr_add powr_realpow)
  then show "log 2 x < of_int (int k) + 1" using pos by (simp add: log_less_iff)
qed

lemma binary64_scale:
  assumes "k \<le> 52"
  shows "2 powr of_int (int k - 52) = 1 / (2 :: real) ^ (52 - k)"
proof -
  have "of_int (int k - 52) = - real (52 - k)" using assms by simp
  then have "2 powr of_int (int k - 52) = inverse (2 powr real (52 - k))"
    by (simp only: powr_minus)
  then show ?thesis by (simp add: powr_realpow inverse_eq_divide)
qed

lemma binary64_nearest:
  assumes "2 ^ k \<le> x" "x < 2 ^ Suc k" "k \<le> 52"
    and "of_int m - 1 / 2 < x * 2 ^ (52 - k)" "x * 2 ^ (52 - k) < of_int m + 1 / 2"
  shows "binary64 x = of_int m / 2 ^ (52 - k)"
proof -
  have "(0 :: real) < 2 ^ k" by simp
  then have pos: "0 < x" using assms(1) by linarith
  then have nz: "x \<noteq> 0" and ab: "\<bar>x\<bar> = x" by simp_all
  have e: "2 powr of_int (\<lfloor>log 2 \<bar>x\<bar>\<rfloor> - 52) = 1 / (2 :: real) ^ (52 - k)"
    by (simp only: ab floor_log2 [OF assms(1,2)] binary64_scale [OF assms(3)])
  have r: "round_half_even (x * 2 ^ (52 - k)) = m"
    using assms(4,5) by (rule round_half_even_nearest)
  have "binary64 x = of_int (round_half_even (x / (1 / 2 ^ (52 - k)))) * (1 / 2 ^ (52 - k))"
    using nz by (simp only: binary64_def Let_def e if_False)
  also have "x / (1 / 2 ^ (52 - k)) = x * 2 ^ (52 - k)" by simp
  finally show ?thesis by (simp add: r)
qed

lemma binary64_small:
  "binary64 0 = 0" "binary64 1 = 1" "binary64 2 = 2" "binary64 3 = 3" "binary64 4 = 4"
proof -
  show "binary64 0 = 0" by (simp add: binary64_def)
  show "binary64 1 = 1" using binary64_nearest [of 0 1 "2 ^ 52"] by simp
  show "binary64 2 = 2" using binary64_nearest [of 1 2 "2 ^ 52"] by simp
  show "binary64 3 = 3" using binary64_nearest [of 1 3 "3 * 2 ^ 51"] by simp
  show "binary64 4 = 4" using binary64_nearest [of 2 4 "2 ^ 52"] by simp
qed

lemma binary64_sqrt_3: "binary64 (sqrt 3) = 7800463371553962 / 2 ^ 52"
proof -
  have "((7800463371553962 - 1 / 2) / 2 ^ 52 :: real)\<^sup>2 < 3"
    by (simp add: power2_eq_square)
  then have "(7800463371553962 - 1 / 2) / 2 ^ 52 < sqrt 3" by (rule real_less_rsqrt)
  then have lo: "of_int 7800463371553962 - 1 / 2 < sqrt 3 * 2 ^ (52 - 0)"
    by (simp add: field_simps)
  have "(3 :: real) < ((7800463371553962 + 1 / 2) / 2 ^ 52)\<^sup>2"
    by (simp add: power2_eq_square)
  then have "sqrt 3 < (7800463371553962 + 1 / 2) / 2 ^ 52"
    by (intro real_less_lsqrt) simp_all
  then have hi: "sqrt 3 * 2 ^ (52 - 0) < of_int 7800463371553962 + 1 / 2"
    by (simp add: field_simps)
  have "(3 :: real) < 2\<^sup>2" by simp
  then have "sqrt 3 < 2" by (intro real_less_lsqrt) simp_all
  then have "binary64 (sqrt 3) = of_int 7800463371553962 / 2 ^ (52 - 0)"
    using lo hi by (intro binary64_nearest) simp_all
  then show ?thesis by simp
qed

lemma binary64_norm_product:
  "binary64 (7800463371553962 / 2 ^ 52 * (7800463371553962 / 2 ^ 52)) = 6755399441055743 / 2 ^ 51"
  using binary64_nearest
    [of 1 "7800463371553962 / 2 ^ 52 * (7800463371553962 / 2 ^ 52)" 6755399441055743]
  by simp

lemma binary64_quotient:
  "binary64 (3 / (6755399441055743 / 2 ^ 51)) = 4503599627370497 / 2 ^ 52"
  using binary64_nearest [of 0 "3 / (6755399441055743 / 2 ^ 51)" 4503599627370497]
  by simp

lemma binary64_example_norms:
  "linalg_norm binary64 [- 1, 0, 0] = 1" "linalg_norm binary64 [- 2, 0, 0] = 2"
  "linalg_norm binary64 [0, 0, 0] = 0"
  "dotp binary64 [- 1, 0, 0] [- 2, 0, 0] = 2"
  by (simp_all add: linalg_norm_def dotp_def binary64_small)



lemma exact_example_norms:
  "linalg_norm exact [- 1, 0, 0] = 1" "linalg_norm exact [0, 0, 0] = 0"
  by (simp_all add: linalg_norm_exact)

subsection \<open>The formula\<close>






subsection \<open>A vector of length zero\<close>

text \<open>
  C7. When one of the two vectors has length zero, the divisor \<open>\<parallel>v1\<parallel> * \<parallel>v2\<parallel>\<close> is zero and
  \<open>hg_app_mag\<close> returns no magnitude: it raises \<open>ValueError\<close>. This holds for every
  rounding that rounds 0 to 0.
\<close>

theorem hg_app_mag_zero_length:
  assumes "rnd 0 = 0" and "linalg_norm rnd v1 = 0 \<or> linalg_norm rnd v2 = 0"
  shows "rnd (linalg_norm rnd v1 * linalg_norm rnd v2) = 0 \<and>
         hg_app_mag rnd H v1 v2 g = Inl ValueError"
  using assms
  by (auto simp add: hg_app_mag_def obj_phase_angle_def math_log10_def Let_def)

theorem hg_app_mag_zero_length_witness:
  "hg_app_mag binary64 10 [0, 0, 0] [- 2, 0, 0] (Some 0.1) = Inl ValueError \<and>
   hg_app_mag exact 10 [- 1, 0, 0] [0, 0, 0] None = Inl ValueError"
  using hg_app_mag_zero_length [of binary64 "[0, 0, 0]" "[- 2, 0, 0]" 10 "Some 0.1"]
    hg_app_mag_zero_length [of exact "[- 1, 0, 0]" "[0, 0, 0]" 10 None]
  by (simp add: binary64_example_norms exact_example_norms binary64_small exact_def)

subsection \<open>Parallel vectors\<close>

text \<open>
  When the rounded quotient is exactly 1 the phase angle is 0, and both phase functions are
  1 at 0 (\<open>phase_func_zero\<close>). For parallel vectors the exact quotient is 1; the rounded
  one need not be.
\<close>

lemma phase_angle_zero_of_unit_quotient:
  assumes "rnd (linalg_norm rnd v1 * linalg_norm rnd v2) \<noteq> 0"
    and "rnd (dotp rnd v1 v2 / rnd (linalg_norm rnd v1 * linalg_norm rnd v2)) = 1"
  shows "obj_phase_angle rnd v1 v2 = Inr (Some 0)"
  using assms by (simp add: obj_phase_angle_def math_acos_def Let_def)

lemma binary64_ones_norm: "linalg_norm binary64 [1, 1, 1] = 7800463371553962 / 2 ^ 52"
  by (simp add: linalg_norm_def binary64_small binary64_sqrt_3)

lemma binary64_ones_dotp: "dotp binary64 [1, 1, 1] [1, 1, 1] = 3"
  by (simp add: dotp_def binary64_small)

lemma binary64_ones_product:
  "binary64 (linalg_norm binary64 [1, 1, 1] * linalg_norm binary64 [1, 1, 1])
     = 6755399441055743 / 2 ^ 51"
  by (simp only: binary64_ones_norm binary64_norm_product)

lemma binary64_ones_quotient:
  "binary64 (dotp binary64 [1, 1, 1] [1, 1, 1]
      / binary64 (linalg_norm binary64 [1, 1, 1] * linalg_norm binary64 [1, 1, 1]))
     = 4503599627370497 / 2 ^ 52"
  by (simp only: binary64_ones_dotp binary64_ones_product binary64_quotient)

text \<open>
  C8 says that for nonzero vectors with \<open>dot v1 v2 = \<parallel>v1\<parallel> * \<parallel>v2\<parallel>\<close> the phase angle computed
  in \<open>hg_app_mag\<close> is 0. For \<open>[1, 1, 1]\<close> and itself that equation holds, and in exact
  arithmetic the angle is 0. On doubles the norm is \<open>1.7320508075688772\<close>, the product of
  the norms \<open>2.9999999999999996\<close> and the quotient \<open>1.0000000000000002\<close>: \<open>math.acos\<close> raises
  \<open>ValueError\<close>, and so does \<open>hg_app_mag\<close>. The code does not bring the rounded quotient
  back into \<open>[-1, 1]\<close>.
\<close>

theorem parallel_vectors_domain_error:
  "dotp exact [1, 1, 1] [1, 1, 1] = linalg_norm exact [1, 1, 1] * linalg_norm exact [1, 1, 1] \<and>
   obj_phase_angle exact [1, 1, 1] [1, 1, 1] = Inr (Some 0) \<and>
   obj_phase_angle binary64 [1, 1, 1] [1, 1, 1] = Inl ValueError \<and>
   hg_app_mag binary64 10 [1, 1, 1] [1, 1, 1] None = Inl ValueError"
proof -
  have e: "dotp exact [1, 1, 1] [1, 1, 1]
      = linalg_norm exact [1, 1, 1] * linalg_norm exact [1, 1, 1]"
    by (simp add: dotp_exact linalg_norm_exact)
  have "linalg_norm exact [1, 1, 1] \<noteq> 0" by (simp add: linalg_norm_exact)
  then have a: "obj_phase_angle exact [1, 1, 1] [1, 1, 1] = Inr (Some 0)"
    using e by (simp add: phase_angle_zero_exact)
  have b: "obj_phase_angle binary64 [1, 1, 1] [1, 1, 1] = Inl ValueError"
    by (simp only: obj_phase_angle_def Let_def binary64_ones_product binary64_ones_dotp
        binary64_quotient) (simp add: math_acos_def)
  then have "hg_app_mag binary64 10 [1, 1, 1] [1, 1, 1] None = Inl ValueError"
    by (simp add: hg_app_mag_def Let_def)
  with e a b show ?thesis by simp
qed

section \<open>Phase angles from \<open>\<pi>\<close> on\<close>

lemma half_angle_cos_tan:
  fixes k :: nat
  assumes "pi + 2 * real k * pi < \<theta>" "\<theta> < 2 * pi + 2 * real k * pi"
  shows "cos (\<theta> / 2) \<noteq> 0" and "tan (\<theta> / 2) < 0"
proof -
  define x where "x = \<theta> / 2 - real (Suc k) * pi"
  have x: "- (pi / 2) < x" "x < 0" using assms by (simp_all add: x_def algebra_simps)
  have h: "\<theta> / 2 = x + real (Suc k) * pi" by (simp add: x_def)
  have "0 < cos x" using x by (intro cos_gt_zero_pi) simp_all
  moreover have "cos (x + real (Suc k) * pi) = cos x * (- 1) ^ Suc k"
    by (simp only: cos_add cos_npi sin_npi)
  ultimately show "cos (\<theta> / 2) \<noteq> 0" by (simp only: h) simp
  have "tan x < 0" using x by (intro tan_less_zero) simp_all
  then show "tan (\<theta> / 2) < 0" by (simp only: h tan_periodic_nat)
qed

lemma half_angle_pole:
  fixes k :: nat
  shows "cos ((pi + 2 * real k * pi) / 2) = 0"
proof -
  have "(pi + 2 * real k * pi) / 2 = pi / 2 + real k * pi" by (simp add: field_simps)
  then show ?thesis by (simp only: cos_add cos_pi_half cos_npi sin_npi sin_pi_half) 
qed

lemma five_quarter_pi: "cos (5 * pi / 4) = - (sqrt 2 / 2)" "tan (5 * pi / 4) = 1"
proof -
  have e: "5 * pi / 4 = pi / 4 + pi" by simp
  show "cos (5 * pi / 4) = - (sqrt 2 / 2)" by (simp only: e cos_periodic_pi cos_45)
  show "tan (5 * pi / 4) = 1" by (simp only: e tan_periodic_pi tan_45)
qed

text \<open>
  C6 says that \<open>phase_func\<close> fails for every phase angle from \<open>\<pi>\<close> on. Nothing in the
  function looks at the range of the angle, and the tangent has period \<open>\<pi>\<close>: at
  \<open>\<theta> = 5\<pi>/2\<close> the half angle is \<open>5\<pi>/4\<close>, its tangent is 1, and both phase functions
  return a number.
\<close>

theorem phase_func_beyond_pi_counterexample:
  "pi \<le> 5 * pi / 2 \<and> phase_func 1 (5 * pi / 2) = Inr (exp (- 3.33)) \<and>
   phase_func 2 (5 * pi / 2) = Inr (exp (- 1.87))"
  by (simp add: phase_func_def subscript_a_factor subscript_b_factor math_tan_def exp_of_pow_def
      five_quarter_pi)

text \<open>
  C6, amended. For a phase angle in \<open>[\<pi> + 2k\<pi>, 2\<pi> + 2k\<pi>)\<close>, \<open>k = 0, 1, 2, \<dots>\<close>,
  \<open>phase_func\<close> fails for both indices. At the left end the tangent of the half angle is
  undefined. Inside the interval it is negative, its power with the exponent 0.63 or 1.22
  is a complex number, and \<open>math.exp\<close> raises \<open>TypeError\<close>.
\<close>

theorem phase_func_fails_odd_half_periods:
  fixes k :: nat
  assumes "pi + 2 * real k * pi \<le> \<theta>" "\<theta> < 2 * pi + 2 * real k * pi"
  shows "(\<exists>e. phase_func 1 \<theta> = Inl e) \<and> (\<exists>e. phase_func 2 \<theta> = Inl e) \<and>
         (\<theta> \<noteq> pi + 2 * real k * pi \<longrightarrow>
            phase_func 1 \<theta> = Inl TypeError \<and> phase_func 2 \<theta> = Inl TypeError)"
proof (cases "\<theta> = pi + 2 * real k * pi")
  case True
  then have "cos (\<theta> / 2) = 0" by (simp only: half_angle_pole)
  then show ?thesis using True
    by (simp add: phase_func_def subscript_a_factor math_tan_def)
next
  case False
  then have "pi + 2 * real k * pi < \<theta>" using assms(1) by simp
  from half_angle_cos_tan [OF this assms(2)] show ?thesis
    by (simp add: phase_func_def subscript_a_factor subscript_b_factor math_tan_def
        exp_of_pow_def)
qed

theorem phase_func_fails_odd_half_periods_witness:
  "phase_func 1 (3 * pi / 2) = Inl TypeError \<and> phase_func 2 (7 * pi / 2) = Inl TypeError \<and>
   (\<exists>e. phase_func 1 pi = Inl e) \<and> (\<exists>e. phase_func 2 (3 * pi) = Inl e)"
  using phase_func_fails_odd_half_periods [of 0 "3 * pi / 2"]
    phase_func_fails_odd_half_periods [of 1 "7 * pi / 2"]
    phase_func_fails_odd_half_periods [of 0 pi]
    phase_func_fails_odd_half_periods [of 1 "3 * pi"]
  by simp

text \<open>
  On the rest of the angles from \<open>\<pi>\<close> on, the intervals \<open>[2k\<pi>, \<pi> + 2k\<pi>)\<close> with \<open>k \<ge> 1\<close>,
  the half-angle tangent is defined and not negative, and \<open>phase_func\<close> returns.
\<close>

lemma phase_func_returns_even_half_periods:
  fixes k :: nat
  assumes "2 * real k * pi \<le> \<theta>" "\<theta> < pi + 2 * real k * pi"
  shows "phase_func 1 \<theta> = Inr (exp (- 3.33 * tan (\<theta> / 2) powr 0.63))"
    and "phase_func 2 \<theta> = Inr (exp (- 1.87 * tan (\<theta> / 2) powr 1.22))"
proof -
  define x where "x = \<theta> / 2 - real k * pi"
  have x: "0 \<le> x" "x < pi / 2" using assms by (simp_all add: x_def algebra_simps)
  have h: "\<theta> / 2 = x + real k * pi" by (simp add: x_def)
  have "0 < cos x" using x by (intro cos_gt_zero_pi) simp_all
  moreover have "cos (x + real k * pi) = cos x * (- 1) ^ k"
    by (simp only: cos_add cos_npi sin_npi)
  ultimately have c: "cos (\<theta> / 2) \<noteq> 0" by (simp only: h) simp
  have "0 \<le> tan x" using x by (intro tan_pos_pi2_le) simp_all
  then have t: "0 \<le> tan (\<theta> / 2)" by (simp only: h tan_periodic_nat)
  show "phase_func 1 \<theta> = Inr (exp (- 3.33 * tan (\<theta> / 2) powr 0.63))"
    using c t
    by (simp add: phase_func_def subscript_a_factor subscript_b_factor math_tan_def
        exp_of_pow_def)
  show "phase_func 2 \<theta> = Inr (exp (- 1.87 * tan (\<theta> / 2) powr 1.22))"
    using c t
    by (simp add: phase_func_def subscript_a_factor subscript_b_factor math_tan_def
        exp_of_pow_def)
qed

section \<open>The doctest values of the reduced magnitude\<close>

subsection \<open>Rational bounds for the exponential and the logarithm\<close>

text \<open>
  \<open>exp_horner n 0 x\<close> is the Taylor polynomial of degree \<open>n - 1\<close>; for \<open>x \<ge> 0\<close> it lies
  below \<open>exp x\<close>, and the remainder in Lagrange form bounds \<open>exp x\<close> from above. The
  argument is quartered first, which keeps the polynomial short.
\<close>

lemma exp_horner_numeral:
  "exp_horner (numeral n) k x = 1 + x / real (Suc k) * exp_horner (pred_numeral n) (Suc k) x"
  by (simp add: numeral_eq_Suc)

lemma horner_term:
  fixes x c p f F :: real
  shows "c \<noteq> 0 \<Longrightarrow> x / c * (p * (c * f) / F) = x * p * f / F"
  by simp

lemma exp_horner_sum: "exp_horner n k x = (\<Sum>m<n. x ^ m * fact k / fact (k + m))"
proof (induction n arbitrary: k)
  case 0 show ?case by simp
next
  case (Suc n)
  let ?f = "\<lambda>m. x ^ m * fact k / fact (k + m)"
  have "(\<Sum>m<Suc n. ?f m) = ?f 0 + (\<Sum>m<n. ?f (Suc m))"
    by (rule sum.lessThan_Suc_shift)
  also have "?f 0 = 1" by simp
  also have "(\<Sum>m<n. ?f (Suc m))
      = (\<Sum>m<n. x / real (Suc k) * (x ^ m * fact (Suc k) / fact (Suc k + m)))"
  proof (rule sum.cong)
    fix m
    have "x / real (Suc k) * (x ^ m * (real (Suc k) * fact k) / fact (Suc k + m))
        = x * x ^ m * fact k / fact (Suc k + m)"
      by (rule horner_term) simp
    then show "?f (Suc m) = x / real (Suc k) * (x ^ m * fact (Suc k) / fact (Suc k + m))"
      by (simp only: fact_Suc power_Suc add_Suc_right add_Suc)
  qed (rule refl)
  also have "\<dots> = x / real (Suc k) * (\<Sum>m<n. x ^ m * fact (Suc k) / fact (Suc k + m))"
    by (simp only: sum_distrib_left)
  finally show ?case using Suc [of "Suc k"] by simp
qed

lemma exp_horner_taylor: "exp_horner n 0 x = (\<Sum>m<n. x ^ m / fact m)"
  by (simp add: exp_horner_sum)

lemma exp_taylor_lower:
  fixes x :: real
  assumes "0 \<le> x"
  shows "exp_horner n 0 x \<le> exp x"
proof -
  obtain t where "exp x = (\<Sum>m<n. x ^ m / fact m) + (exp t / fact n) * x ^ n"
    using Maclaurin_exp_le [of x n] by blast
  moreover have "0 \<le> (exp t / fact n) * x ^ n" using assms by simp
  ultimately show ?thesis by (simp add: exp_horner_taylor)
qed

lemma exp_taylor_upper:
  fixes x :: real
  assumes "0 \<le> x"
  shows "exp x * (1 - x ^ n / fact n) \<le> exp_horner n 0 x"
proof -
  define r where "r = x ^ n / fact n"
  obtain t where t: "\<bar>t\<bar> \<le> \<bar>x\<bar>"
    and e: "exp x = (\<Sum>m<n. x ^ m / fact m) + (exp t / fact n) * x ^ n"
    using Maclaurin_exp_le [of x n] by blast
  have "0 \<le> r" using assms by (simp add: r_def)
  have "exp t \<le> exp x" using t assms by simp
  then have "exp t * r \<le> exp x * r" using \<open>0 \<le> r\<close> by (rule mult_right_mono)
  moreover have "exp x = exp_horner n 0 x + exp t * r"
    using e by (simp add: r_def exp_horner_taylor)
  ultimately have "exp x * (1 - r) \<le> exp_horner n 0 x" by (simp add: algebra_simps)
  then show ?thesis by (simp only: r_def)
qed

lemma exp_fourfold: "exp (4 * z) = exp z ^ 4" for z :: real
  using exp_of_nat_mult [of 4 z] by simp

lemma exp_lower_bound:
  fixes x :: real
  assumes "0 \<le> z" "4 * z \<le> x" "0 \<le> a" "a \<le> exp_horner n 0 z" "c \<le> a ^ 4"
  shows "c \<le> exp x"
proof -
  have "a \<le> exp z" using exp_taylor_lower [OF assms(1), of n] assms(4) by linarith
  then have "a ^ 4 \<le> exp z ^ 4" using assms(3) by (rule power_mono)
  then have "c \<le> exp (4 * z)" using assms(5) by (simp only: exp_fourfold)
  also have "\<dots> \<le> exp x" using assms(2) by simp
  finally show ?thesis .
qed

lemma fact_reciprocal_less_one: "2 \<le> n \<Longrightarrow> 1 / fact n < (1 :: real)"
proof -
  assume "2 \<le> n"
  then have "(2 :: nat) \<le> fact n" using fact_ge_self [of n] by linarith
  then have "(2 :: real) \<le> fact n" by (metis of_nat_fact of_nat_le_iff of_nat_numeral)
  then show ?thesis by simp
qed

lemma exp_upper_bound:
  fixes x :: real
  assumes "0 \<le> x" "x \<le> 4 * z" "z \<le> 1" "2 \<le> n"
    "exp_horner n 0 z \<le> a * (1 - 1 / fact n)" "a ^ 4 \<le> c"
  shows "exp x \<le> c"
proof -
  have z: "0 \<le> z" using assms(1,2) by linarith
  have pos: "0 < 1 - 1 / (fact n :: real)"
    using fact_reciprocal_less_one [OF assms(4)] by simp
  have "z ^ n \<le> 1" using z assms(3) by (rule power_le_one)
  then have "z ^ n / fact n \<le> 1 / fact n" by (simp add: divide_right_mono)
  then have "exp z * (1 - 1 / fact n) \<le> exp z * (1 - z ^ n / fact n)"
    by (intro mult_left_mono) simp_all
  also have "\<dots> \<le> exp_horner n 0 z" using z by (rule exp_taylor_upper)
  also have "\<dots> \<le> a * (1 - 1 / fact n)" by (rule assms(5))
  finally have "exp z \<le> a" using pos by simp
  then have "exp z ^ 4 \<le> a ^ 4" by (intro power_mono) simp_all
  then have "exp (4 * z) \<le> c" using assms(6) by (simp only: exp_fourfold)
  moreover have "exp x \<le> exp (4 * z)" using assms(2) by simp
  ultimately show ?thesis by linarith
qed

lemma half_angle_ratio:
  fixes s :: real
  assumes "s * s = 2" "0 \<le> s"
  shows "(s / 2) / (s / 2 + 1) = s - 1"
proof -
  have "(s - 1) * (s / 2 + 1) = (s * s) / 2 + s / 2 - 1"
    by (simp add: field_simps)
  then have "(s - 1) * (s / 2 + 1) = s / 2" by (simp add: assms(1))
  moreover have "s / 2 + 1 \<noteq> 0" using assms(2) by linarith
  ultimately show ?thesis by (metis nonzero_mult_div_cancel_right)
qed

lemma tan_pi_8: "tan (pi / 8) = sqrt 2 - 1"
proof -
  have "tan (pi / 8) = sin (pi / 4) / (cos (pi / 4) + 1)"
    using tan_half [of "pi / 8"] by simp
  also have "\<dots> = (sqrt 2 / 2) / (sqrt 2 / 2 + 1)" by (simp only: sin_45 cos_45)
  also have "\<dots> = sqrt 2 - 1" by (rule half_angle_ratio) simp_all
  finally show ?thesis .
qed

lemma exp_negative_bounds:
  fixes a x :: real
  assumes "0 \<le> a" "x_lo \<le> x" "x \<le> x_hi" "0 < c" "c \<le> exp (a * x_lo)" "exp (a * x_hi) \<le> d"
  shows "1 / d \<le> exp (- a * x)" and "exp (- a * x) \<le> 1 / c"
proof -
  have "exp (a * x) \<le> exp (a * x_hi)" using assms(1,3) by (simp add: mult_left_mono)
  then have "exp (a * x) \<le> d" using assms(6) by linarith
  then have "inverse d \<le> inverse (exp (a * x))" by (rule le_imp_inverse_le) simp
  then show "1 / d \<le> exp (- a * x)" by (simp add: exp_minus inverse_eq_divide)
  have "exp (a * x_lo) \<le> exp (a * x)" using assms(1,2) by (simp add: mult_left_mono)
  then have "c \<le> exp (a * x)" using assms(5) by linarith
  then have "inverse (exp (a * x)) \<le> inverse c" using assms(4) by (rule le_imp_inverse_le)
  then show "exp (- a * x) \<le> 1 / c" by (simp add: exp_minus inverse_eq_divide)
qed

lemma convex_combination_pos:
  fixes g a b :: real
  assumes "0 \<le> g" "g \<le> 1" "0 < a" "0 < b"
  shows "0 < (1 - g) * a + g * b"
proof (cases "g = 0")
  case True then show ?thesis using assms(3) by simp
next
  case False
  then have "0 < g * b" using assms(1,4) by simp
  moreover have "0 \<le> (1 - g) * a" using assms(2,3) by simp
  ultimately show ?thesis by (rule add_nonneg_pos [rotated])
qed

lemma log10_lower_bound:
  fixes y k l c :: real
  assumes "0 < y" "0 \<le> k" "l \<le> ln 10" "0 < c" "c \<le> exp (k * l)" "1 / c < y"
  shows "- k < log 10 y"
proof -
  have "exp (k * l) \<le> exp (k * ln 10)" using assms(2,3) by (simp add: mult_left_mono)
  then have "c \<le> exp (k * ln 10)" using assms(5) by linarith
  then have "inverse (exp (k * ln 10)) \<le> inverse c" using assms(4) by (rule le_imp_inverse_le)
  then have "exp (- (k * ln 10)) < y" using assms(6) by (simp add: exp_minus inverse_eq_divide)
  then have "exp (- (k * ln 10)) < exp (ln y)" using assms(1) by simp
  then have "- (k * ln 10) < ln y" by (simp only: exp_less_cancel_iff)
  moreover have "0 < ln (10 :: real)" by simp
  ultimately have "- k < ln y / ln 10" by (simp add: pos_less_divide_eq)
  then show ?thesis by (simp add: log_def)
qed

lemma log10_upper_bound:
  fixes y k l d :: real
  assumes "0 < y" "0 \<le> k" "ln 10 \<le> l" "exp (k * l) \<le> d" "y < 1 / d"
  shows "log 10 y < - k"
proof -
  have "exp (k * ln 10) \<le> exp (k * l)" using assms(2,3) by (simp add: mult_left_mono)
  then have "exp (k * ln 10) \<le> d" using assms(4) by linarith
  then have "inverse d \<le> inverse (exp (k * ln 10))" by (rule le_imp_inverse_le) simp
  then have "y < exp (- (k * ln 10))" using assms(5) by (simp add: exp_minus inverse_eq_divide)
  then have "exp (ln y) < exp (- (k * ln 10))" using assms(1) by simp
  then have "ln y < - (k * ln 10)" by (simp only: exp_less_cancel_iff)
  moreover have "0 < ln (10 :: real)" by simp
  ultimately have "ln y / ln 10 < - k" by (simp add: pos_divide_less_eq)
  then show ?thesis by (simp add: log_def)
qed

subsection \<open>The numbers at a phase angle of \<open>\<pi>/4\<close>\<close>

text \<open>
  The half angle is \<open>\<pi>/8\<close>, whose tangent is \<open>sqrt 2 - 1 = 1 / (1 + sqrt 2)\<close>. Each
  quantity of \<open>reduc_mag\<close> is enclosed in turn: the logarithm of \<open>1 + sqrt 2\<close>, the two
  powers of the tangent, the two phase functions, their weighted sum, and its decimal
  logarithm.
\<close>

lemma sqrt_2_bounds: "1.414213562372 \<le> sqrt 2" "sqrt 2 \<le> 1.414213562375"
proof -
  have "(1.414213562372 :: real)\<^sup>2 \<le> 2" by (simp add: power2_eq_square)
  then show "1.414213562372 \<le> sqrt 2" by (rule real_le_rsqrt)
  have "(2 :: real) \<le> 1.414213562375\<^sup>2" by (simp add: power2_eq_square)
  then show "sqrt 2 \<le> 1.414213562375" by (intro real_le_lsqrt) simp_all
qed

lemma exp_m_lower: "exp (0.881373587 :: real) \<le> 2.414213562344"
  by (rule exp_upper_bound [where n = 15 and z = "0.22034339675" and a = "1.246504702767"])
    (simp_all add: exp_horner_numeral fact_numeral power_divide)

lemma exp_m_upper: "(2.414213562388 :: real) \<le> exp 0.88137358703"
  by (rule exp_lower_bound [where n = 15 and z = "0.2203433967575" and a = "1.246504702773"])
    (simp_all add: exp_horner_numeral power_divide)

lemma ln_1_sqrt_2_bounds: "0.881373587 \<le> ln (1 + sqrt 2)" "ln (1 + sqrt 2) \<le> 0.88137358703"
proof -
  have pos: "0 < 1 + sqrt 2" by (simp add: add_pos_nonneg)
  have "exp (0.881373587 :: real) \<le> 2.414213562344" by (rule exp_m_lower)
  also have "\<dots> \<le> 1 + 1.414213562372" by simp
  also have "\<dots> \<le> 1 + sqrt 2" using sqrt_2_bounds(1) by (simp only: add_left_mono)
  finally have "exp (0.881373587 :: real) \<le> 1 + sqrt 2" .
  then show "0.881373587 \<le> ln (1 + sqrt 2)" using pos by (simp only: ln_ge_iff)
  have "1 + sqrt 2 \<le> 1 + 1.414213562375" using sqrt_2_bounds(2) by (simp only: add_left_mono)
  also have "\<dots> \<le> (2.414213562388 :: real)" by simp
  also have "\<dots> \<le> exp 0.88137358703" by (rule exp_m_upper)
  finally have "1 + sqrt 2 \<le> exp (0.88137358703 :: real)" .
  then have "ln (1 + sqrt 2) \<le> ln (exp (0.88137358703 :: real))"
    using pos by (simp only: ln_le_cancel_iff exp_gt_zero)
  then show "ln (1 + sqrt 2) \<le> 0.88137358703" by (simp only: ln_exp)
qed

lemma tan_pi_8_powr: "tan (pi / 8) powr b = exp (- b * ln (1 + sqrt 2))"
proof -
  have pos: "0 < sqrt 2 - 1" "0 < 1 + sqrt 2" by (simp_all add: add_pos_nonneg)
  have "(sqrt 2 - 1) * (1 + sqrt 2) = sqrt 2 * sqrt 2 - 1" by (simp add: algebra_simps)
  then have "(sqrt 2 - 1) * (1 + sqrt 2) = 1" by simp
  then have "ln ((sqrt 2 - 1) * (1 + sqrt 2)) = 0" by simp
  then have "ln (sqrt 2 - 1) = - ln (1 + sqrt 2)"
    using pos by (simp add: ln_mult add_eq_0_iff)
  then show ?thesis using pos(1) by (simp add: tan_pi_8 powr_def)
qed

lemma exp_p_lower: "(1.74240328723 :: real) \<le> exp (0.63 * 0.881373587)"
  by (rule exp_lower_bound [where n = 15 and z = "0.1388163399525" and a = "1.148913071195"])
    (simp_all add: exp_horner_numeral power_divide)

lemma exp_p_upper: "exp (0.63 * 0.88137358703) \<le> (1.742403287287 :: real)"
  by (rule exp_upper_bound [where n = 15 and z = "0.1388163399573" and a = "1.148913071204"])
    (simp_all add: exp_horner_numeral fact_numeral power_divide)

lemma exp_q_lower: "(2.930801034078 :: real) \<le> exp (1.22 * 0.881373587)"
  by (rule exp_lower_bound [where n = 15 and z = "0.268818944035" and a = "1.308418222674"])
    (simp_all add: exp_horner_numeral power_divide)

lemma exp_q_upper: "exp (1.22 * 0.88137358703) \<le> (2.930801034225 :: real)"
  by (rule exp_upper_bound [where n = 15 and z = "0.2688189440442" and a = "1.30841822269"])
    (simp_all add: exp_horner_numeral fact_numeral power_divide)

lemma tan_pi_8_powr_063:
  "0.573919945683 \<le> tan (pi / 8) powr 0.63" "tan (pi / 8) powr 0.63 \<le> 0.573919945705"
proof -
  note b = exp_negative_bounds [OF _ ln_1_sqrt_2_bounds _ exp_p_lower exp_p_upper]
  have "(0.573919945683 :: real) \<le> 1 / 1.742403287287" by simp
  also have "\<dots> \<le> exp (- 0.63 * ln (1 + sqrt 2))" by (rule b(1)) simp_all
  finally show "0.573919945683 \<le> tan (pi / 8) powr 0.63" by (simp only: tan_pi_8_powr)
  have "exp (- 0.63 * ln (1 + sqrt 2)) \<le> 1 / 1.74240328723" by (rule b(2)) simp_all
  also have "\<dots> \<le> (0.573919945705 :: real)" by simp
  finally show "tan (pi / 8) powr 0.63 \<le> 0.573919945705" by (simp only: tan_pi_8_powr)
qed

lemma tan_pi_8_powr_122:
  "0.341203646484 \<le> tan (pi / 8) powr 1.22" "tan (pi / 8) powr 1.22 \<le> 0.341203646504"
proof -
  note b = exp_negative_bounds [OF _ ln_1_sqrt_2_bounds _ exp_q_lower exp_q_upper]
  have "(0.341203646484 :: real) \<le> 1 / 2.930801034225" by simp
  also have "\<dots> \<le> exp (- 1.22 * ln (1 + sqrt 2))" by (rule b(1)) simp_all
  finally show "0.341203646484 \<le> tan (pi / 8) powr 1.22" by (simp only: tan_pi_8_powr)
  have "exp (- 1.22 * ln (1 + sqrt 2)) \<le> 1 / 2.930801034078" by (rule b(2)) simp_all
  also have "\<dots> \<le> (0.341203646504 :: real)" by simp
  finally show "tan (pi / 8) powr 1.22 \<le> 0.341203646504" by (simp only: tan_pi_8_powr)
qed

lemma exp_1_lower: "(6.760882434076 :: real) \<le> exp (3.33 * 0.573919945683)"
  by (rule exp_lower_bound [where n = 15 and z = "0.477788354781" and a = "1.612504168467"])
    (simp_all add: exp_horner_numeral power_divide)

lemma exp_1_upper: "exp (3.33 * 0.573919945705) \<le> (6.760882434649 :: real)"
  by (rule exp_upper_bound [where n = 15 and z = "0.4777883547995" and a = "1.612504168501"])
    (simp_all add: exp_horner_numeral fact_numeral power_divide)

lemma exp_2_lower: "(1.892787894969 :: real) \<le> exp (1.87 * 0.341203646484)"
  by (rule exp_lower_bound [where n = 15 and z = "0.1595127047312" and a = "1.172939164001"])
    (simp_all add: exp_horner_numeral power_divide)

lemma exp_2_upper: "exp (1.87 * 0.341203646504) \<le> (1.892787895069 :: real)"
  by (rule exp_upper_bound [where n = 15 and z = "0.1595127047407" and a = "1.172939164016"])
    (simp_all add: exp_horner_numeral fact_numeral power_divide)

lemma phase_func_1_quarter_pi:
  "\<exists>phi1. phase_func 1 (pi / 4) = Inr phi1 \<and> 0.147909686296 \<le> phi1 \<and> phi1 \<le> 0.147909686311"
proof -
  note b = exp_negative_bounds [OF _ tan_pi_8_powr_063 _ exp_1_lower exp_1_upper]
  have "phase_func 1 (pi / 4) = Inr (exp (- 3.33 * tan (pi / 4 / 2) powr 0.63))"
    by (rule phase_func_1_in_range) simp_all
  then have "phase_func 1 (pi / 4) = Inr (exp (- 3.33 * tan (pi / 8) powr 0.63))" by simp
  moreover have "(0.147909686296 :: real) \<le> 1 / 6.760882434649" by simp
  moreover have "1 / 6.760882434649 \<le> exp (- 3.33 * tan (pi / 8) powr 0.63)"
    by (rule b(1)) simp_all
  moreover have "exp (- 3.33 * tan (pi / 8) powr 0.63) \<le> 1 / 6.760882434076"
    by (rule b(2)) simp_all
  moreover have "1 / 6.760882434076 \<le> (0.147909686311 :: real)" by simp
  ultimately show ?thesis by (intro exI [of _ "exp (- 3.33 * tan (pi / 8) powr 0.63)"]) linarith
qed

lemma phase_func_2_quarter_pi:
  "\<exists>phi2. phase_func 2 (pi / 4) = Inr phi2 \<and> 0.528321214755 \<le> phi2 \<and> phi2 \<le> 0.528321214786"
proof -
  note b = exp_negative_bounds [OF _ tan_pi_8_powr_122 _ exp_2_lower exp_2_upper]
  have "phase_func 2 (pi / 4) = Inr (exp (- 1.87 * tan (pi / 4 / 2) powr 1.22))"
    by (rule phase_func_2_in_range) simp_all
  then have "phase_func 2 (pi / 4) = Inr (exp (- 1.87 * tan (pi / 8) powr 1.22))" by simp
  moreover have "(0.528321214755 :: real) \<le> 1 / 1.892787895069" by simp
  moreover have "1 / 1.892787895069 \<le> exp (- 1.87 * tan (pi / 8) powr 1.22)"
    by (rule b(1)) simp_all
  moreover have "exp (- 1.87 * tan (pi / 8) powr 1.22) \<le> 1 / 1.892787894969"
    by (rule b(2)) simp_all
  moreover have "1 / 1.892787894969 \<le> (0.528321214786 :: real)" by simp
  ultimately show ?thesis by (intro exI [of _ "exp (- 1.87 * tan (pi / 8) powr 1.22)"]) linarith
qed

lemma exp_ln_10_lower: "exp (2.30258509297 :: real) \<le> 10"
  by (rule exp_upper_bound [where n = 15 and z = "0.5756462732425" and a = "1.778279410031"])
    (simp_all add: exp_horner_numeral fact_numeral power_divide)

lemma exp_ln_10_upper: "(10 :: real) \<le> exp 2.30258509302"
  by (rule exp_lower_bound [where n = 15 and z = "0.575646273255" and a = "1.778279410049"])
    (simp_all add: exp_horner_numeral power_divide)

lemma ln_10_bounds: "2.30258509297 \<le> ln (10 :: real)" "ln (10 :: real) \<le> 2.30258509302"
proof -
  show "2.30258509297 \<le> ln (10 :: real)" using exp_ln_10_lower by (simp only: ln_ge_iff)
  have "ln (10 :: real) \<le> ln (exp 2.30258509302)"
    using exp_ln_10_upper by (simp only: ln_le_cancel_iff exp_gt_zero)
  then show "ln (10 :: real) \<le> 2.30258509302" by (simp only: ln_exp)
qed

lemma reduc_mag_quarter_pi:
  assumes "0 \<le> slope_g_of g" "slope_g_of g \<le> 1"
  shows "\<exists>y. reduc_mag H (pi / 4) g = Inr (H - 2.5 * log 10 y) \<and>
           (1 - slope_g_of g) * 0.147909686296 + slope_g_of g * 0.528321214755 \<le> y \<and>
           y \<le> (1 - slope_g_of g) * 0.147909686311 + slope_g_of g * 0.528321214786"
proof -
  obtain phi1 where p1: "phase_func 1 (pi / 4) = Inr phi1"
    and l1: "0.147909686296 \<le> phi1" and u1: "phi1 \<le> 0.147909686311"
    using phase_func_1_quarter_pi by blast
  obtain phi2 where p2: "phase_func 2 (pi / 4) = Inr phi2"
    and l2: "0.528321214755 \<le> phi2" and u2: "phi2 \<le> 0.528321214786"
    using phase_func_2_quarter_pi by blast
  let ?g = "slope_g_of g"
  let ?y = "(1 - ?g) * phi1 + ?g * phi2"
  have lo: "(1 - ?g) * 0.147909686296 + ?g * 0.528321214755 \<le> ?y"
    using assms l1 l2 by (intro add_mono mult_left_mono) simp_all
  have hi: "?y \<le> (1 - ?g) * 0.147909686311 + ?g * 0.528321214786"
    using assms u1 u2 by (intro add_mono mult_left_mono) simp_all
  have "0 < (1 - ?g) * 0.147909686296 + ?g * (0.528321214755 :: real)"
    using assms by (intro convex_combination_pos) simp_all
  with lo have "0 < ?y" by linarith
  then have "reduc_mag H (pi / 4) g = Inr (H - 2.5 * log 10 ?y)"
    by (simp add: reduc_mag_def p1 p2 math_log10_def)
  with lo hi show ?thesis by blast
qed

lemma exp_a_lower: "(5.377765464601 :: real) \<le> exp (0.7306018578354312 * 2.30258509297)"
  by (rule exp_lower_bound [where n = 15 and z = "0.420568236687" and a = "1.522826635771"])
    (simp_all add: exp_horner_numeral power_divide)

lemma exp_a_upper: "exp (0.7306018570354312 * 2.30258509302) \<le> (5.377765454957 :: real)"
  by (rule exp_upper_bound [where n = 15 and z = "0.4205682362357" and a = "1.522826635088"])
    (simp_all add: exp_horner_numeral fact_numeral power_divide)

lemma exp_b_lower: "(4.878729056432 :: real) \<le> exp (0.6883066999488064 * 2.30258509297)"
  by (rule exp_lower_bound [where n = 15 and z = "0.3962211866733" and a = "1.486198008391"])
    (simp_all add: exp_horner_numeral power_divide)

lemma exp_b_upper: "exp (0.6883066991488064 * 2.30258509302) \<le> (4.878729047677 :: real)"
  by (rule exp_upper_bound [where n = 15 and z = "0.3962211862215" and a = "1.486198007724"])
    (simp_all add: exp_horner_numeral fact_numeral power_divide)

lemma reduc_mag_quarter_pi_a:
  "\<exists>r. reduc_mag 10 (pi / 4) (Some 0.10) = Inr r \<and> \<bar>r - 11.826504643588578\<bar> < 1 / 10 ^ 9"
proof -
  obtain y where r: "reduc_mag 10 (pi / 4) (Some 0.10) = Inr (10 - 2.5 * log 10 y)"
    and lo: "0.1859508391419 \<le> y" and hi: "y \<le> 0.1859508391585"
    using reduc_mag_quarter_pi [of "Some 0.10" 10] by (auto simp add: slope_g_of_def)
  have pos: "0 < y" using lo by simp
  have "1 / 5.377765464601 < y" using lo by simp
  then have "- 0.7306018578354312 < log 10 y"
    using pos by (intro log10_lower_bound [OF _ _ ln_10_bounds(1) _ exp_a_lower]) simp_all
  moreover have "y < 1 / 5.377765454957" using hi by simp
  then have "log 10 y < - 0.7306018570354312"
    using pos by (intro log10_upper_bound [OF _ _ ln_10_bounds(2) exp_a_upper]) simp_all
  ultimately have "10 - 2.5 * log 10 y - 11.826504643588578 < 1 / 10 ^ 9 \<and>
      - (10 - 2.5 * log 10 y - 11.826504643588578) < 1 / 10 ^ 9"
    by simp
  then have "\<bar>10 - 2.5 * log 10 y - 11.826504643588578\<bar> < 1 / 10 ^ 9"
    by (simp only: abs_less_iff)
  with r show ?thesis by blast
qed

lemma reduc_mag_quarter_pi_b:
  "\<exists>r. reduc_mag 10 (pi / 4) None = Inr r \<and> \<bar>r - 11.720766748872016\<bar> < 1 / 10 ^ 9"
proof -
  obtain y where r: "reduc_mag 10 (pi / 4) None = Inr (10 - 2.5 * log 10 y)"
    and lo: "0.20497141556485 \<le> y" and hi: "y \<le> 0.20497141558225"
    using reduc_mag_quarter_pi [of None 10] by (auto simp add: slope_g_of_def)
  have pos: "0 < y" using lo by simp
  have "1 / 4.878729056432 < y" using lo by simp
  then have "- 0.6883066999488064 < log 10 y"
    using pos by (intro log10_lower_bound [OF _ _ ln_10_bounds(1) _ exp_b_lower]) simp_all
  moreover have "y < 1 / 4.878729047677" using hi by simp
  then have "log 10 y < - 0.6883066991488064"
    using pos by (intro log10_upper_bound [OF _ _ ln_10_bounds(2) exp_b_upper]) simp_all
  ultimately have "10 - 2.5 * log 10 y - 11.720766748872016 < 1 / 10 ^ 9 \<and>
      - (10 - 2.5 * log 10 y - 11.720766748872016) < 1 / 10 ^ 9"
    by simp
  then have "\<bar>10 - 2.5 * log 10 y - 11.720766748872016\<bar> < 1 / 10 ^ 9"
    by (simp only: abs_less_iff)
  with r show ?thesis by blast
qed

text \<open>
  C9. \<open>reduc_mag(10.0, \<pi>/4, 0.10)\<close> returns a number within \<open>10\<^sup>-\<^sup>9\<close> of
  \<open>11.826504643588578\<close>, and \<open>reduc_mag(10.0, \<pi>/4)\<close>, with the default slope parameter,
  one within \<open>10\<^sup>-\<^sup>9\<close> of \<open>11.720766748872016\<close>.
\<close>

theorem reduc_mag_doctest_values:
  "\<exists>r1 r2. reduc_mag 10 (pi / 4) (Some 0.10) = Inr r1 \<and>
             \<bar>r1 - 11.826504643588578\<bar> < 1 / 10 ^ 9 \<and>
           reduc_mag 10 (pi / 4) None = Inr r2 \<and>
             \<bar>r2 - 11.720766748872016\<bar> < 1 / 10 ^ 9"
  using reduc_mag_quarter_pi_a reduc_mag_quarter_pi_b by blast

end
